theory Spec2Isabelle
  imports Complex_Main "HOL-Library.Word" "HOL-Library.Log_Nat"
begin

section \<open>Upgrade details: the values the tracker stores\<close>

text \<open>
  The package \<^verbatim>\<open>details\<close> (file \<^verbatim>\<open>details.go\<close>) keeps the state of one upgrade in a
  struct \<^verbatim>\<open>Details\<close>, tells registered observers about every change, and writes the
  download rate as a text.

  A Go \<^verbatim>\<open>float64\<close> is a real number, one of the two infinities, or NaN. The
  constructor \<open>Num\<close> carries the numeric value, so both zeros of IEEE 754 are \<open>Num 0\<close>;
  Go's \<^verbatim>\<open>==\<close> does not tell them apart either.
\<close>

datatype float64 = Num real | PosInf | NegInf | NaN

text \<open>Go's \<^verbatim>\<open>==\<close> on floats: NaN differs from every value, itself included.\<close>

definition float64_eq :: "float64 \<Rightarrow> float64 \<Rightarrow> bool" where
  "float64_eq a b = (if a = NaN then False else if b = NaN then False else a = b)"

text \<open>
  \<^verbatim>\<open>math.IsInf(f, sign)\<close>: with \<open>sign > 0\<close> whether \<open>f\<close> is positive infinity, with
  \<open>sign < 0\<close> whether it is negative infinity, with \<open>sign = 0\<close> whether it is either.
\<close>

definition IsInf :: "float64 \<Rightarrow> int \<Rightarrow> bool" where
  "IsInf f sign = ((0 \<le> sign \<and> f = PosInf) \<or> (sign \<le> 0 \<and> f = NegInf))"

text \<open>
  \<^verbatim>\<open>type State string\<close>: \<^verbatim>\<open>SetState\<close> assigns the literal \<^verbatim>\<open>""\<close> to a field of this
  type.
\<close>

type_synonym State = string

text \<open>
  Modelled from the spec: the declaration of \<^verbatim>\<open>State\<close> and of its constants is
  not among the source files. The spec names a terminal failure state and a terminal
  completed state; \<^verbatim>\<open>details.go\<close> refers to them as \<^verbatim>\<open>StateFailed\<close> and
  \<^verbatim>\<open>StateCompleted\<close>. Their spelling follows the \<^verbatim>\<open>UPG_\<close> prefix of the comment on
  \<^verbatim>\<open>SetDownloadProgress\<close>. The proofs use only that the two constants are non-empty
  and differ.
\<close>

definition StateFailed :: State where
  "StateFailed = ''UPG_FAILED''"

text \<open>
  Modelled from the spec: the constant for the terminal completed state, declared with
  \<^verbatim>\<open>StateFailed\<close> outside the source files and spelled the same way.
\<close>

definition StateCompleted :: State where
  "StateCompleted = ''UPG_COMPLETED''"

text \<open>
  Pointers are addresses into a store. \<^verbatim>\<open>time.Time\<close> of Go's standard library is an
  instant (here in nanoseconds) together with a location that only affects how the
  instant is printed; \<^verbatim>\<open>Time.Equal\<close> compares the instants.
\<close>

type_synonym addr = nat

record Time =
  instant :: int
  location :: string

definition Time_Equal :: "Time \<Rightarrow> Time \<Rightarrow> bool" where
  "Time_Equal t u = (instant t = instant u)"

text \<open>
  An observer is a Go function value. The tracker only stores and calls it, so it is
  represented by an identifier, and calling it is recorded as an entry of a call log.
\<close>

type_synonym Observer = nat

record Metadata =
  ScheduledAt :: "addr option"
  DownloadPercent :: float64
  DownloadRate :: float64
  FailedState :: State
  ErrorMsg :: string

text \<open>
  The field \<^verbatim>\<open>mu\<close> (the mutex) has no counterpart: the model is sequential, every
  method runs from its \<^verbatim>\<open>Lock\<close> to its deferred \<^verbatim>\<open>Unlock\<close> without interleaving.
\<close>

record Details =
  TargetVersion :: string
  State :: State
  ActionID :: string
  Metadata :: Metadata
  observers :: "Observer list"

text \<open>One call of an observer: which one, and its argument (\<open>None\<close> is \<^verbatim>\<open>nil\<close>).\<close>

type_synonym call = "Observer \<times> Details option"

text \<open>
  A Go \<^verbatim>\<open>error\<close> is \<^verbatim>\<open>nil\<close> (\<open>None\<close>) or a value whose method \<^verbatim>\<open>Error()\<close> returns the
  description carried by \<open>Some\<close>.
\<close>

type_synonym error = "string option"

datatype panic = NilPointerDereference

section \<open>The tracker's operations\<close>

definition NewDetails :: "string \<Rightarrow> State \<Rightarrow> string \<Rightarrow> Details" where
  "NewDetails targetVersion initialState actionID =
     \<lparr>TargetVersion = targetVersion,
      State = initialState,
      ActionID = actionID,
      Metadata = \<lparr>ScheduledAt = None, DownloadPercent = Num 0, DownloadRate = Num 0,
                  FailedState = [], ErrorMsg = []\<rparr>,
      observers = []\<rparr>"

definition notifyObserver :: "Details \<Rightarrow> Observer \<Rightarrow> call list \<Rightarrow> call list" where
  "notifyObserver d observer calls =
     (if State d = StateCompleted then calls @ [(observer, None)]
      else
        (let dCopy = \<lparr>TargetVersion = TargetVersion d,
                      State = State d,
                      ActionID = ActionID d,
                      Metadata = Metadata d,
                      observers = []\<rparr>
         in calls @ [(observer, Some dCopy)]))"

text \<open>The loop of \<^verbatim>\<open>notifyObservers\<close> over \<^verbatim>\<open>d.observers\<close>, first to last.\<close>

fun notifyObservers_range :: "Details \<Rightarrow> Observer list \<Rightarrow> call list \<Rightarrow> call list" where
  "notifyObservers_range d [] calls = calls"
| "notifyObservers_range d (observer # rest) calls =
     notifyObservers_range d rest (notifyObserver d observer calls)"

definition notifyObservers :: "Details \<Rightarrow> call list \<Rightarrow> call list" where
  "notifyObservers d calls = notifyObservers_range d (observers d) calls"

definition SetState :: "Details \<Rightarrow> State \<Rightarrow> call list \<Rightarrow> Details \<times> call list" where
  "SetState d s calls =
     (let d1 = d\<lparr>State := s\<rparr>;
          d2 = (if s \<noteq> StateFailed
                then d1\<lparr>Metadata := (Metadata d1)\<lparr>ErrorMsg := [], FailedState := []\<rparr>\<rparr>
                else d1)
      in (d2, notifyObservers d2 calls))"

definition SetDownloadProgress ::
  "Details \<Rightarrow> float64 \<Rightarrow> float64 \<Rightarrow> call list \<Rightarrow> Details \<times> call list" where
  "SetDownloadProgress d percent rateBytesPerSecond calls =
     (let d1 = d\<lparr>Metadata := (Metadata d)\<lparr>DownloadPercent := percent\<rparr>\<rparr>;
          d2 = d1\<lparr>Metadata := (Metadata d1)\<lparr>DownloadRate := rateBytesPerSecond\<rparr>\<rparr>
      in (d2, notifyObservers d2 calls))"

text \<open>
  \<^verbatim>\<open>Fail\<close> calls \<^verbatim>\<open>err.Error()\<close>, which panics on a \<^verbatim>\<open>nil\<close> error. The panic comes
  after the assignment to \<^verbatim>\<open>FailedState\<close> and before any observer is called, and the
  deferred \<^verbatim>\<open>Unlock\<close> leaves the tracker usable: the result \<open>Inl\<close> carries the panic
  together with the tracker and the call log as the panic leaves them.
\<close>

definition Fail ::
  "Details \<Rightarrow> error \<Rightarrow> call list \<Rightarrow> panic \<times> Details \<times> call list + Details \<times> call list" where
  "Fail d err calls =
     (let d1 = (if State d \<noteq> StateFailed
                then d\<lparr>Metadata := (Metadata d)\<lparr>FailedState := State d\<rparr>\<rparr>
                else d)
      in case err of
           None \<Rightarrow> Inl (NilPointerDereference, d1, calls)
         | Some msg \<Rightarrow>
             (let d2 = d1\<lparr>Metadata := (Metadata d1)\<lparr>ErrorMsg := msg\<rparr>\<rparr>;
                  d3 = d2\<lparr>State := StateFailed\<rparr>
              in Inr (d3, notifyObservers d3 calls)))"

definition RegisterObserver :: "Details \<Rightarrow> Observer \<Rightarrow> call list \<Rightarrow> Details \<times> call list" where
  "RegisterObserver d observer calls =
     (let d1 = d\<lparr>observers := observers d @ [observer]\<rparr>
      in (d1, notifyObserver d1 observer calls))"

text \<open>
  A client's use of one tracker: a call of one of the four methods that change it. A
  sequence of calls ends at the first panic, with the tracker as the panic leaves it.
\<close>

datatype tracker_call =
    CallSetState State
  | CallSetDownloadProgress float64 float64
  | CallFail error
  | CallRegisterObserver Observer

fun apply_call ::
  "Details \<times> call list \<Rightarrow> tracker_call \<Rightarrow> panic \<times> Details \<times> call list + Details \<times> call list" where
  "apply_call (d, calls) (CallSetState s) = Inr (SetState d s calls)"
| "apply_call (d, calls) (CallSetDownloadProgress percent rate) =
     Inr (SetDownloadProgress d percent rate calls)"
| "apply_call (d, calls) (CallFail err) = Fail d err calls"
| "apply_call (d, calls) (CallRegisterObserver observer) =
     Inr (RegisterObserver d observer calls)"

fun run_calls ::
  "tracker_call list \<Rightarrow> Details \<times> call list \<Rightarrow> panic \<times> Details \<times> call list + Details \<times> call list" where
  "run_calls [] st = Inr st"
| "run_calls (c # cs) st =
     (case apply_call st c of Inl p \<Rightarrow> Inl p | Inr st' \<Rightarrow> run_calls cs st')"

text \<open>The calls that return: all but \<^verbatim>\<open>Fail\<close> with a \<^verbatim>\<open>nil\<close> error.\<close>

fun call_returns :: "tracker_call \<Rightarrow> bool" where
  "call_returns (CallFail err) = (err \<noteq> None)"
| "call_returns (CallSetState s) = True"
| "call_returns (CallSetDownloadProgress percent rate) = True"
| "call_returns (CallRegisterObserver observer) = True"

text \<open>
  The use the comments of \<^verbatim>\<open>SetState\<close> and \<^verbatim>\<open>Fail\<close> ask for: the failed state is
  entered through \<^verbatim>\<open>Fail\<close> only, states are named, and errors have a description.
\<close>

fun sanctioned_call :: "tracker_call \<Rightarrow> bool" where
  "sanctioned_call (CallSetState s) = (s \<noteq> [] \<and> s \<noteq> StateFailed)"
| "sanctioned_call (CallFail err) = (err \<noteq> None \<and> err \<noteq> Some [])"
| "sanctioned_call (CallSetDownloadProgress percent rate) = True"
| "sanctioned_call (CallRegisterObserver observer) = True"

section \<open>Equality of trackers\<close>

text \<open>
  \<^verbatim>\<open>Equals\<close> compares two pointers before it compares what they point to, so its
  model reads the trackers and the timestamps from a store.
\<close>

record heap =
  details_at :: "addr \<Rightarrow> Details"
  time_at :: "addr \<Rightarrow> Time"

definition equalTimePointers :: "heap \<Rightarrow> addr option \<Rightarrow> addr option \<Rightarrow> bool" where
  "equalTimePointers h t otherT =
     (if t = otherT then True
      else case (t, otherT) of
             (Some p, Some q) \<Rightarrow> Time_Equal (time_at h p) (time_at h q)
           | _ \<Rightarrow> False)"

definition Metadata_Equals :: "heap \<Rightarrow> Metadata \<Rightarrow> Metadata \<Rightarrow> bool" where
  "Metadata_Equals h m otherM =
     (equalTimePointers h (ScheduledAt m) (ScheduledAt otherM) \<and>
      FailedState m = FailedState otherM \<and>
      ErrorMsg m = ErrorMsg otherM \<and>
      float64_eq (DownloadPercent m) (DownloadPercent otherM) \<and>
      float64_eq (DownloadRate m) (DownloadRate otherM))"

definition Equals :: "heap \<Rightarrow> addr option \<Rightarrow> addr option \<Rightarrow> bool" where
  "Equals h d otherD =
     (if d = otherD then True
      else case (d, otherD) of
             (Some a, Some b) \<Rightarrow>
               State (details_at h a) = State (details_at h b) \<and>
               TargetVersion (details_at h a) = TargetVersion (details_at h b) \<and>
               ActionID (details_at h a) = ActionID (details_at h b) \<and>
               Metadata_Equals h (Metadata (details_at h a)) (Metadata (details_at h b))
           | _ \<Rightarrow> False)"

section \<open>The download rate as JSON\<close>

text \<open>
  \<^verbatim>\<open>encoding/json\<close> and \<^verbatim>\<open>github.com/docker/go-units\<close> are libraries outside the
  repository. The two methods below take the library functions they call as arguments:
  \<open>json_Marshal\<close> and \<open>json_Unmarshal\<close> for a string (a result and an error, as in Go),
  \<open>HumanSizeWithPrecision\<close> and \<open>FromHumanSize\<close> of go-units.
\<close>

definition HasSuffix :: "string \<Rightarrow> string \<Rightarrow> bool" where
  "HasSuffix s suffix =
     (length suffix \<le> length s \<and> drop (length s - length suffix) s = suffix)"

definition TrimSuffix :: "string \<Rightarrow> string \<Rightarrow> string" where
  "TrimSuffix s suffix =
     (if HasSuffix s suffix then take (length s - length suffix) s else s)"

text \<open>
  The conversion of an \<^verbatim>\<open>int64\<close> to \<^verbatim>\<open>float64\<close> rounds to 53 significant bits, ties to
  even. No \<^verbatim>\<open>int64\<close> is large enough to overflow.
\<close>

definition round_to_53_bits :: "nat \<Rightarrow> nat" where
  "round_to_53_bits n =
     (if n \<le> 2 ^ 53 then n
      else
        (let e = floorlog 2 n - 53;
             q = n div 2 ^ e;
             r = n mod 2 ^ e;
             half = 2 ^ (e - 1);
             q' = (if half < r \<or> (r = half \<and> odd q) then q + 1 else q)
         in q' * 2 ^ e))"

definition float64_of_int64 :: "64 word \<Rightarrow> float64" where
  "float64_of_int64 w =
     (if sint w < 0 then Num (- real (round_to_53_bits (nat (- sint w))))
      else Num (real (round_to_53_bits (nat (sint w)))))"

definition MarshalJSON ::
  "(string \<Rightarrow> string \<times> error) \<Rightarrow> (float64 \<Rightarrow> int \<Rightarrow> string) \<Rightarrow> float64 \<Rightarrow> string \<times> error" where
  "MarshalJSON json_Marshal HumanSizeWithPrecision dr =
     (let downloadRateBytesPerSecond = dr
      in if IsInf downloadRateBytesPerSecond 0 then json_Marshal ''+Inf bps''
         else json_Marshal (HumanSizeWithPrecision downloadRateBytesPerSecond 2 @ ''ps''))"

text \<open>
  \<^verbatim>\<open>UnmarshalJSON\<close> returns an error and writes through its receiver: the result is the
  error and the value of \<^verbatim>\<open>*dr\<close> afterwards.
\<close>

definition UnmarshalJSON ::
  "(string \<Rightarrow> string \<times> error) \<Rightarrow> (string \<Rightarrow> 64 word \<times> error) \<Rightarrow>
     float64 \<Rightarrow> string \<Rightarrow> error \<times> float64" where
  "UnmarshalJSON json_Unmarshal FromHumanSize dr data =
     (case json_Unmarshal data of
        (downloadRateStr, Some e) \<Rightarrow> (Some e, dr)
      | (downloadRateStr, None) \<Rightarrow>
          if downloadRateStr = ''+Inf bps'' then (None, PosInf)
          else
            (case FromHumanSize (TrimSuffix downloadRateStr ''ps'') of
               (downloadRateBytesPerSecond, Some e) \<Rightarrow> (Some e, dr)
             | (downloadRateBytesPerSecond, None) \<Rightarrow>
                 (None, float64_of_int64 downloadRateBytesPerSecond)))"

section \<open>Invariants and example values\<close>

text \<open>
  Outside the failed state the two failure fields are empty. This holds however the
  tracker is used.
\<close>

definition cleared_unless_failed :: "Details \<Rightarrow> bool" where
  "cleared_unless_failed d =
     (State d = StateFailed \<or> (FailedState (Metadata d) = [] \<and> ErrorMsg (Metadata d) = []))"

text \<open>
  Under the sanctioned use the state is named, and the failure fields are set exactly in
  the failed state.
\<close>

definition failure_recorded :: "Details \<Rightarrow> bool" where
  "failure_recorded d =
     (State d \<noteq> [] \<and>
      (if State d = StateFailed
       then FailedState (Metadata d) \<noteq> [] \<and> ErrorMsg (Metadata d) \<noteq> []
       else FailedState (Metadata d) = [] \<and> ErrorMsg (Metadata d) = []))"

definition failure_fields_empty :: "Details \<Rightarrow> bool" where
  "failure_fields_empty d = (FailedState (Metadata d) = [] \<and> ErrorMsg (Metadata d) = [])"

text \<open>A tracker after a download at 2048 bytes per second that failed half way.\<close>

definition failed_download :: Details where
  "failed_download =
     \<lparr>TargetVersion = ''9.1.0'', State = StateFailed, ActionID = ''act-1'',
      Metadata = \<lparr>ScheduledAt = None, DownloadPercent = Num (1 / 2), DownloadRate = Num 2048,
                  FailedState = ''UPG_REQUESTED'', ErrorMsg = ''disk full''\<rparr>,
      observers = []\<rparr>"

text \<open>
  A tracker whose progress was reported as NaN (a rate of zero bytes in zero seconds),
  and a store that holds such a tracker at every address.
\<close>

definition nan_progress :: Details where
  "nan_progress =
     fst (SetDownloadProgress (NewDetails ''9.1.0'' ''UPG_DOWNLOADING'' ''act-1'') NaN NaN [])"

definition nan_heap :: heap where
  "nan_heap = \<lparr>details_at = (\<lambda>a. nan_progress),
               time_at = (\<lambda>p. \<lparr>instant = 0, location = ''UTC''\<rparr>)\<rparr>"

text \<open>
  A store with a tracker at address 0 and another one elsewhere. They are scheduled for
  the same instant, written in two time zones and held at two addresses, and they have
  different observers.
\<close>

definition scheduled_upgrade :: "addr \<Rightarrow> Observer list \<Rightarrow> Details" where
  "scheduled_upgrade p os =
     \<lparr>TargetVersion = ''9.1.0'', State = ''UPG_SCHEDULED'', ActionID = ''act-1'',
      Metadata = \<lparr>ScheduledAt = Some p, DownloadPercent = Num 0, DownloadRate = Num 0,
                  FailedState = [], ErrorMsg = []\<rparr>,
      observers = os\<rparr>"

definition zoned_heap :: heap where
  "zoned_heap =
     \<lparr>details_at = (\<lambda>a. if a = 0 then scheduled_upgrade 0 [] else scheduled_upgrade 1 [5, 6]),
      time_at = (\<lambda>p. if p = 0 then \<lparr>instant = 1700000000000000000, location = ''UTC''\<rparr>
                      else \<lparr>instant = 1700000000000000000, location = ''Europe/Berlin''\<rparr>)\<rparr>"

section \<open>Basic facts\<close>

lemma StateFailed_nonempty: "StateFailed \<noteq> []"
  by (simp add: StateFailed_def)

lemma StateCompleted_neq_StateFailed: "StateCompleted \<noteq> StateFailed"
  by (simp add: StateCompleted_def StateFailed_def)



lemma fst_SetState:
  "fst (SetState d s calls) =
     (if s \<noteq> StateFailed
      then d\<lparr>State := s, Metadata := (Metadata d)\<lparr>ErrorMsg := [], FailedState := []\<rparr>\<rparr>
      else d\<lparr>State := s\<rparr>)"
  by (simp add: SetState_def Let_def)


lemma fst_SetDownloadProgress:
  "fst (SetDownloadProgress d p r calls) =
     d\<lparr>Metadata := (Metadata d)\<lparr>DownloadPercent := p, DownloadRate := r\<rparr>\<rparr>"
  by (simp add: SetDownloadProgress_def Let_def)


lemma Fail_Some:
  "Fail d (Some msg) calls =
     Inr (d\<lparr>Metadata := (Metadata d)\<lparr>
              FailedState := (if State d \<noteq> StateFailed then State d
                              else FailedState (Metadata d)),
              ErrorMsg := msg\<rparr>,
            State := StateFailed\<rparr>,
          notifyObservers
            (d\<lparr>Metadata := (Metadata d)\<lparr>
                 FailedState := (if State d \<noteq> StateFailed then State d
                                 else FailedState (Metadata d)),
                 ErrorMsg := msg\<rparr>,
               State := StateFailed\<rparr>) calls)"
  by (cases "State d = StateFailed") (simp_all add: Fail_def Let_def)

lemma Fail_None:
  "Fail d None calls =
     Inl (NilPointerDereference,
          (if State d \<noteq> StateFailed
           then d\<lparr>Metadata := (Metadata d)\<lparr>FailedState := State d\<rparr>\<rparr>
           else d),
          calls)"
  by (simp add: Fail_def Let_def)

text \<open>What one successful call leaves behind, method by method.\<close>

lemma apply_call_Inr:
  assumes "apply_call (d, calls) c = Inr (d', calls')"
  shows "(\<exists>s. c = CallSetState s \<and> d' = fst (SetState d s calls)) \<or>
         (\<exists>p r. c = CallSetDownloadProgress p r \<and> d' = fst (SetDownloadProgress d p r calls)) \<or>
         (\<exists>msg. c = CallFail (Some msg) \<and>
            d' = d\<lparr>Metadata := (Metadata d)\<lparr>
                     FailedState := (if State d \<noteq> StateFailed then State d
                                     else FailedState (Metadata d)),
                     ErrorMsg := msg\<rparr>,
                   State := StateFailed\<rparr>) \<or>
         (\<exists>observer. c = CallRegisterObserver observer \<and>
            d' = d\<lparr>observers := observers d @ [observer]\<rparr>)"
proof (cases c)
  case (CallSetState s)
  with assms show ?thesis by (metis apply_call.simps(1) fst_conv sum.inject(2))
next
  case (CallSetDownloadProgress p r)
  with assms show ?thesis by (metis apply_call.simps(2) fst_conv sum.inject(2))
next
  case (CallFail err)
  show ?thesis
  proof (cases err)
    case None
    with assms CallFail show ?thesis by (simp add: Fail_None)
  next
    case (Some msg)
    with assms CallFail show ?thesis by (simp add: Fail_Some)
  qed
next
  case (CallRegisterObserver observer)
  with assms show ?thesis by (simp add: RegisterObserver_def Let_def)
qed

text \<open>A property that every call preserves holds after the whole sequence.\<close>

lemma run_calls_invariant:
  assumes run: "run_calls cs (d, calls) = Inr (d', calls')"
    and start: "I d"
    and step: "\<And>c x xcalls y ycalls.
      c \<in> set cs \<Longrightarrow> I x \<Longrightarrow> apply_call (x, xcalls) c = Inr (y, ycalls) \<Longrightarrow> I y"
  shows "I d'"
  using run start step
proof (induction cs arbitrary: d calls)
  case Nil
  then show ?case by simp
next
  case (Cons c cs)
  from Cons.prems(1) obtain x xcalls where
    first: "apply_call (d, calls) c = Inr (x, xcalls)" and
    rest: "run_calls cs (x, xcalls) = Inr (d', calls')"
    by (auto split: sum.splits)
  have "I x"
    using Cons.prems(3) [of c d calls x xcalls] Cons.prems(2) first by simp
  moreover have "\<And>c' x xcalls y ycalls.
      c' \<in> set cs \<Longrightarrow> I x \<Longrightarrow> apply_call (x, xcalls) c' = Inr (y, ycalls) \<Longrightarrow> I y"
    using Cons.prems(3) by (meson list.set_intros(2))
  ultimately show ?case
    using Cons.IH rest by blast
qed

lemma apply_call_cleared_unless_failed:
  assumes "apply_call (d, calls) c = Inr (d', calls')" and "cleared_unless_failed d"
  shows "cleared_unless_failed d'"
  using apply_call_Inr [OF assms(1)] assms(2)
  by (auto simp: cleared_unless_failed_def fst_SetState fst_SetDownloadProgress)

lemma apply_call_failure_recorded:
  assumes "apply_call (d, calls) c = Inr (d', calls')" and "failure_recorded d"
    and "sanctioned_call c"
  shows "failure_recorded d'"
  using apply_call_Inr [OF assms(1)] assms(2,3) StateFailed_nonempty
  by (auto simp: failure_recorded_def fst_SetState fst_SetDownloadProgress split: if_splits)

text \<open>A sequence of calls runs to its end exactly when each of its calls returns.\<close>

lemma apply_call_returns:
  assumes "call_returns c"
  shows "\<exists>d' calls'. apply_call (d, calls) c = Inr (d', calls')"
proof (cases c)
  case (CallFail err)
  with assms obtain msg where "err = Some msg" by (cases err) auto
  with CallFail show ?thesis by (simp add: Fail_Some)
next
  case (CallSetState s)
  then show ?thesis by (cases "SetState d s calls") simp
next
  case (CallSetDownloadProgress p r)
  then show ?thesis by (cases "SetDownloadProgress d p r calls") simp
next
  case (CallRegisterObserver observer)
  then show ?thesis by (cases "RegisterObserver d observer calls") simp
qed

lemma run_calls_returns:
  assumes "list_all call_returns cs"
  shows "\<exists>d' calls'. run_calls cs (d, calls) = Inr (d', calls')"
  using assms
proof (induction cs arbitrary: d calls)
  case Nil
  then show ?case by simp
next
  case (Cons c cs)
  then obtain x xcalls where "apply_call (d, calls) c = Inr (x, xcalls)"
    using apply_call_returns [of c d calls] by auto
  moreover from Cons obtain d' calls' where "run_calls cs (x, xcalls) = Inr (d', calls')"
    by fastforce
  ultimately show ?case by simp
qed

lemma run_calls_panics:
  "\<not> list_all call_returns cs \<Longrightarrow> \<exists>p. run_calls cs (d, calls) = Inl p"
proof (induction cs arbitrary: d calls)
  case Nil
  then show ?case by simp
next
  case (Cons c cs)
  show ?case
  proof (cases "call_returns c")
    case True
    then obtain x xcalls where step: "apply_call (d, calls) c = Inr (x, xcalls)"
      using apply_call_returns [of c d calls] by auto
    from Cons.prems True have "\<not> list_all call_returns cs" by simp
    from Cons.IH [OF this, of x xcalls] step show ?thesis by simp
  next
    case False
    then have "c = CallFail None" by (cases c) auto
    then show ?thesis by (simp add: Fail_None)
  qed
qed

lemma sanctioned_call_returns: "sanctioned_call c \<Longrightarrow> call_returns c"
  by (cases c) auto

lemma run_SetState_only_keeps_empty:
  assumes "failure_fields_empty d"
  shows "\<exists>d' calls'. run_calls (map CallSetState ss) (d, calls) = Inr (d', calls') \<and>
           failure_fields_empty d' \<and> State d' = (if ss = [] then State d else last ss)"
  using assms
proof (induction ss arbitrary: d calls)
  case Nil
  then show ?case by simp
next
  case (Cons s ss)
  obtain x xcalls where step: "SetState d s calls = (x, xcalls)"
    by (cases "SetState d s calls")
  then have x: "x = fst (SetState d s calls)" by simp
  have "failure_fields_empty x"
    using Cons.prems by (simp add: x fst_SetState failure_fields_empty_def)
  from Cons.IH [OF this, of xcalls] obtain d' calls' where
    rest: "run_calls (map CallSetState ss) (x, xcalls) = Inr (d', calls')" and
    keep: "failure_fields_empty d'" and
    st: "State d' = (if ss = [] then State x else last ss)"
    by blast
  have "State x = s" by (simp add: x fst_SetState)
  with rest keep st step show ?case by simp
qed

section \<open>Failure bookkeeping\<close>

text \<open>
  Claim C1, as amended. Take any sequence of \<^verbatim>\<open>SetState\<close>, \<^verbatim>\<open>SetDownloadProgress\<close>,
  \<^verbatim>\<open>Fail\<close> and \<^verbatim>\<open>RegisterObserver\<close> calls on a tracker made by \<^verbatim>\<open>NewDetails\<close> in which
  every \<^verbatim>\<open>Fail\<close> is given an error that is not \<^verbatim>\<open>nil\<close>. Every call returns, and
  afterwards: if \<open>FailedState\<close> or \<open>ErrorMsg\<close> is non-empty, the state is
  \<open>StateFailed\<close>. If moreover the initial state and every state given to \<^verbatim>\<open>SetState\<close>
  is neither empty nor \<open>StateFailed\<close>, and every error given to \<^verbatim>\<open>Fail\<close> has a
  non-empty description, then both fields are non-empty if and only if the state is
  \<open>StateFailed\<close>.
\<close>

theorem failure_metadata_invariant:
  assumes "list_all call_returns cs"
  shows "\<exists>d calls.
     run_calls cs (NewDetails targetVersion initialState actionID, []) = Inr (d, calls) \<and>
     ((FailedState (Metadata d) \<noteq> [] \<or> ErrorMsg (Metadata d) \<noteq> []) \<longrightarrow>
        State d = StateFailed) \<and>
     (initialState \<noteq> [] \<and> initialState \<noteq> StateFailed \<and> list_all sanctioned_call cs \<longrightarrow>
        ((FailedState (Metadata d) \<noteq> [] \<and> ErrorMsg (Metadata d) \<noteq> []) \<longleftrightarrow>
         State d = StateFailed))"
proof -
  from run_calls_returns [OF assms] obtain d calls where
    run: "run_calls cs (NewDetails targetVersion initialState actionID, []) = Inr (d, calls)"
    by blast
  have "cleared_unless_failed (NewDetails targetVersion initialState actionID)"
    by (simp add: cleared_unless_failed_def NewDetails_def)
  then have "cleared_unless_failed d"
    using run_calls_invariant [OF run, of cleared_unless_failed]
      apply_call_cleared_unless_failed by blast
  then have first: "(FailedState (Metadata d) \<noteq> [] \<or> ErrorMsg (Metadata d) \<noteq> []) \<longrightarrow>
        State d = StateFailed"
    by (auto simp: cleared_unless_failed_def)
  have second: "(FailedState (Metadata d) \<noteq> [] \<and> ErrorMsg (Metadata d) \<noteq> []) \<longleftrightarrow>
         State d = StateFailed"
    if ok: "initialState \<noteq> [] \<and> initialState \<noteq> StateFailed \<and> list_all sanctioned_call cs"
  proof -
    from ok have "failure_recorded (NewDetails targetVersion initialState actionID)"
      by (simp add: failure_recorded_def NewDetails_def)
    moreover have "\<And>c x xcalls y ycalls.
        c \<in> set cs \<Longrightarrow> failure_recorded x \<Longrightarrow> apply_call (x, xcalls) c = Inr (y, ycalls) \<Longrightarrow>
        failure_recorded y"
      using ok apply_call_failure_recorded by (metis list_all_iff)
    ultimately have "failure_recorded d"
      using run_calls_invariant [OF run, of failure_recorded] by blast
    then show ?thesis
      by (auto simp: failure_recorded_def split: if_splits)
  qed
  from run first second show ?thesis by blast
qed

text \<open>
  An instance of the invariant (claim C1): a download in progress fails with
  \<^verbatim>\<open>disk full\<close>, and the tracker ends as \<open>failed_download\<close>.
\<close>

theorem failure_metadata_invariant_witness:
  "list_all call_returns
     [CallSetDownloadProgress (Num (1 / 2)) (Num 2048), CallFail (Some ''disk full'')] \<and>
   run_calls [CallSetDownloadProgress (Num (1 / 2)) (Num 2048), CallFail (Some ''disk full'')]
     (NewDetails ''9.1.0'' ''UPG_REQUESTED'' ''act-1'', []) = Inr (failed_download, []) \<and>
   ''UPG_REQUESTED'' \<noteq> [] \<and> ''UPG_REQUESTED'' \<noteq> StateFailed \<and>
   list_all sanctioned_call
     [CallSetDownloadProgress (Num (1 / 2)) (Num 2048), CallFail (Some ''disk full'')] \<and>
   FailedState (Metadata failed_download) \<noteq> [] \<and>
   ErrorMsg (Metadata failed_download) \<noteq> [] \<and>
   State failed_download = StateFailed"
proof -
  have ret: "list_all call_returns
      [CallSetDownloadProgress (Num (1 / 2)) (Num 2048), CallFail (Some ''disk full'')]"
    by simp
  have run: "run_calls
      [CallSetDownloadProgress (Num (1 / 2)) (Num 2048), CallFail (Some ''disk full'')]
      (NewDetails ''9.1.0'' ''UPG_REQUESTED'' ''act-1'', []) = Inr (failed_download, [])"
    by (simp add: NewDetails_def SetDownloadProgress_def Fail_def notifyObservers_def
        failed_download_def StateFailed_def Let_def)
  have ok: "''UPG_REQUESTED'' \<noteq> [] \<and> ''UPG_REQUESTED'' \<noteq> StateFailed \<and>
      list_all sanctioned_call
        [CallSetDownloadProgress (Num (1 / 2)) (Num 2048), CallFail (Some ''disk full'')]"
    by (simp add: StateFailed_def)
  have st: "State failed_download = StateFailed"
    by (simp add: failed_download_def)
  from failure_metadata_invariant [OF ret, of "''9.1.0''" "''UPG_REQUESTED''" "''act-1''"]
    run ok
  have "(FailedState (Metadata failed_download) \<noteq> [] \<and>
         ErrorMsg (Metadata failed_download) \<noteq> []) \<longleftrightarrow> State failed_download = StateFailed"
    by (metis Pair_inject sum.inject(2))
  with ret run ok st show ?thesis by blast
qed

text \<open>
  Why the invariant is stated for errors that are not \<^verbatim>\<open>nil\<close>: \<^verbatim>\<open>Fail(nil)\<close> on a new
  tracker panics after it has set \<open>FailedState\<close>, and leaves the state as it was.
\<close>

lemma Fail_nil_leaves_FailedState:
  "Fail (NewDetails ''9.1.0'' ''UPG_REQUESTED'' ''act-1'') None [] =
     Inl (NilPointerDereference,
          (NewDetails ''9.1.0'' ''UPG_REQUESTED'' ''act-1'')
            \<lparr>Metadata := (Metadata (NewDetails ''9.1.0'' ''UPG_REQUESTED'' ''act-1''))
               \<lparr>FailedState := ''UPG_REQUESTED''\<rparr>\<rparr>,
          [])"
  by (simp add: Fail_None NewDetails_def StateFailed_def)

text \<open>
  Claim C1 as stated fails: \<^verbatim>\<open>SetState(StateFailed)\<close> on a new tracker gives the failed
  state with both failure fields empty.
\<close>

theorem failure_metadata_counterexample:
  "run_calls [CallSetState StateFailed] (NewDetails ''9.1.0'' ''UPG_REQUESTED'' ''act-1'', []) =
     Inr (SetState (NewDetails ''9.1.0'' ''UPG_REQUESTED'' ''act-1'') StateFailed []) \<and>
   State (fst (SetState (NewDetails ''9.1.0'' ''UPG_REQUESTED'' ''act-1'') StateFailed [])) =
     StateFailed \<and>
   FailedState (Metadata
     (fst (SetState (NewDetails ''9.1.0'' ''UPG_REQUESTED'' ''act-1'') StateFailed []))) = [] \<and>
   ErrorMsg (Metadata
     (fst (SetState (NewDetails ''9.1.0'' ''UPG_REQUESTED'' ''act-1'') StateFailed []))) = []"
  by (simp add: fst_SetState NewDetails_def)



text \<open>
  Claim C3. \<^verbatim>\<open>SetState\<close> assigns the given state. When that state is not \<open>StateFailed\<close>,
  \<open>FailedState\<close> and \<open>ErrorMsg\<close> are empty afterwards, whatever they were before.
\<close>

theorem SetState_assigns_and_clears:
  "State (fst (SetState d newState calls)) = newState \<and>
   (newState \<noteq> StateFailed \<longrightarrow>
      FailedState (Metadata (fst (SetState d newState calls))) = [] \<and>
      ErrorMsg (Metadata (fst (SetState d newState calls))) = [])"
  by (simp add: fst_SetState)

text \<open>
  An instance of claim C3: the failed download is set to downloading again, and its
  failure fields, set before, are empty after.
\<close>

theorem SetState_assigns_and_clears_witness:
  "''UPG_DOWNLOADING'' \<noteq> StateFailed \<and>
   State (fst (SetState failed_download ''UPG_DOWNLOADING'' [])) = ''UPG_DOWNLOADING'' \<and>
   FailedState (Metadata (fst (SetState failed_download ''UPG_DOWNLOADING'' []))) = [] \<and>
   ErrorMsg (Metadata (fst (SetState failed_download ''UPG_DOWNLOADING'' []))) = [] \<and>
   FailedState (Metadata failed_download) = ''UPG_REQUESTED'' \<and>
   ErrorMsg (Metadata failed_download) = ''disk full''"
proof -
  have n: "''UPG_DOWNLOADING'' \<noteq> StateFailed"
    by (simp add: StateFailed_def)
  have b: "FailedState (Metadata failed_download) = ''UPG_REQUESTED'' \<and>
      ErrorMsg (Metadata failed_download) = ''disk full''"
    by (simp add: failed_download_def)
  from SetState_assigns_and_clears
    [where d = failed_download and newState = "''UPG_DOWNLOADING''" and calls = "[]"] n b
  show ?thesis by blast
qed

text \<open>
  Claim C10. \<^verbatim>\<open>SetState\<close> with \<open>StateFailed\<close> leaves the metadata, and so \<open>FailedState\<close>
  and \<open>ErrorMsg\<close>, as they were. What an earlier \<^verbatim>\<open>Fail\<close> recorded is still there after
  it, and a new tracker brought to \<open>StateFailed\<close> by \<^verbatim>\<open>SetState\<close> calls alone has both
  fields empty.
\<close>

theorem SetState_Failed_keeps_failure_metadata:
  "Metadata (fst (SetState d StateFailed calls)) = Metadata d \<and>
   State (fst (SetState d StateFailed calls)) = StateFailed \<and>
   (\<exists>d1 calls1.
      Fail d (Some msg) calls = Inr (d1, calls1) \<and>
      FailedState (Metadata (fst (SetState d1 StateFailed calls1))) = FailedState (Metadata d1) \<and>
      ErrorMsg (Metadata (fst (SetState d1 StateFailed calls1))) = msg) \<and>
   (\<exists>d2 calls2.
      run_calls (map CallSetState (ss @ [StateFailed]))
        (NewDetails targetVersion initialState actionID, []) = Inr (d2, calls2) \<and>
      State d2 = StateFailed \<and>
      FailedState (Metadata d2) = [] \<and> ErrorMsg (Metadata d2) = [])"
proof (intro conjI)
  show "Metadata (fst (SetState d StateFailed calls)) = Metadata d"
    by (simp add: fst_SetState)
  show "State (fst (SetState d StateFailed calls)) = StateFailed"
    by (simp add: fst_SetState)
  show "\<exists>d1 calls1.
      Fail d (Some msg) calls = Inr (d1, calls1) \<and>
      FailedState (Metadata (fst (SetState d1 StateFailed calls1))) = FailedState (Metadata d1) \<and>
      ErrorMsg (Metadata (fst (SetState d1 StateFailed calls1))) = msg"
    by (simp add: Fail_Some fst_SetState)
  have "failure_fields_empty (NewDetails targetVersion initialState actionID)"
    by (simp add: failure_fields_empty_def NewDetails_def)
  from run_SetState_only_keeps_empty [OF this, of "ss @ [StateFailed]" "[]"]
  show "\<exists>d2 calls2.
      run_calls (map CallSetState (ss @ [StateFailed]))
        (NewDetails targetVersion initialState actionID, []) = Inr (d2, calls2) \<and>
      State d2 = StateFailed \<and>
      FailedState (Metadata d2) = [] \<and> ErrorMsg (Metadata d2) = []"
    by (auto simp: failure_fields_empty_def)
qed

section \<open>Notification of observers\<close>


text \<open>
  Claim C8. \<^verbatim>\<open>RegisterObserver\<close> puts the observer at the end of the list and adds one
  call of it to the call log, and no other call. The argument is \<^verbatim>\<open>nil\<close> if the state is
  \<open>StateCompleted\<close>, and otherwise a copy of the tracker's target version, state,
  action id and metadata.
\<close>

theorem RegisterObserver_appends_and_notifies:
  "RegisterObserver d fn calls =
     (d\<lparr>observers := observers d @ [fn]\<rparr>,
      calls @ [(fn, if State d = StateCompleted then None
                    else Some \<lparr>TargetVersion = TargetVersion d, State = State d,
                               ActionID = ActionID d, Metadata = Metadata d,
                               observers = []\<rparr>)])"
  by (simp add: RegisterObserver_def notifyObserver_def Let_def)

section \<open>Equality of trackers\<close>

lemma float64_eq_sym: "float64_eq a b = float64_eq b a"
  by (auto simp: float64_eq_def)

lemma equalTimePointers_sym: "equalTimePointers h t u = equalTimePointers h u t"
  by (auto simp: equalTimePointers_def Time_Equal_def split: option.splits)

lemma equalTimePointers_refl: "equalTimePointers h t t"
  by (simp add: equalTimePointers_def)

lemma Metadata_Equals_sym: "Metadata_Equals h m n = Metadata_Equals h n m"
  unfolding Metadata_Equals_def
  using float64_eq_sym equalTimePointers_sym by (metis (no_types))

lemma Equals_sym: "Equals h d e = Equals h e d"
proof (cases "d = e")
  case True
  then show ?thesis by simp
next
  case False
  then show ?thesis
    using Metadata_Equals_sym [of h]
    by (cases d; cases e) (auto simp: Equals_def)
qed

text \<open>
  Claim C9, as amended. \<^verbatim>\<open>Equals\<close> holds between a pointer and itself and is
  symmetric; two \<^verbatim>\<open>nil\<close> pointers are equal, and \<^verbatim>\<open>nil\<close> never equals a tracker. Two
  trackers with the same state, target version, action id and metadata are equal,
  whatever their observers, provided the download percentage and the download rate are
  not NaN. Two trackers that agree in every compared field but the timestamp they point
  to are equal exactly when the two timestamps are the same instant; the location of the
  timestamps and their addresses play no part.
\<close>

theorem Equals_properties:
  "Equals h d d \<and>
   Equals h d e = Equals h e d \<and>
   Equals h None None \<and>
   \<not> Equals h None (Some a) \<and> \<not> Equals h (Some a) None \<and>
   (State (details_at h a) = State (details_at h b) \<and>
    TargetVersion (details_at h a) = TargetVersion (details_at h b) \<and>
    ActionID (details_at h a) = ActionID (details_at h b) \<and>
    Metadata (details_at h a) = Metadata (details_at h b) \<and>
    DownloadPercent (Metadata (details_at h a)) \<noteq> NaN \<and>
    DownloadRate (Metadata (details_at h a)) \<noteq> NaN
    \<longrightarrow> Equals h (Some a) (Some b)) \<and>
   (State (details_at h a) = State (details_at h b) \<and>
    TargetVersion (details_at h a) = TargetVersion (details_at h b) \<and>
    ActionID (details_at h a) = ActionID (details_at h b) \<and>
    ScheduledAt (Metadata (details_at h a)) = Some p \<and>
    ScheduledAt (Metadata (details_at h b)) = Some q \<and>
    FailedState (Metadata (details_at h a)) = FailedState (Metadata (details_at h b)) \<and>
    ErrorMsg (Metadata (details_at h a)) = ErrorMsg (Metadata (details_at h b)) \<and>
    DownloadPercent (Metadata (details_at h a)) = DownloadPercent (Metadata (details_at h b)) \<and>
    DownloadRate (Metadata (details_at h a)) = DownloadRate (Metadata (details_at h b)) \<and>
    DownloadPercent (Metadata (details_at h a)) \<noteq> NaN \<and>
    DownloadRate (Metadata (details_at h a)) \<noteq> NaN
    \<longrightarrow> Equals h (Some a) (Some b) = (instant (time_at h p) = instant (time_at h q)))"
proof (intro conjI impI)
  show "Equals h d d" by (simp add: Equals_def)
  show "Equals h d e = Equals h e d" by (rule Equals_sym)
  show "Equals h None None" by (simp add: Equals_def)
  show "\<not> Equals h None (Some a)" by (simp add: Equals_def)
  show "\<not> Equals h (Some a) None" by (simp add: Equals_def)
next
  assume "State (details_at h a) = State (details_at h b) \<and>
    TargetVersion (details_at h a) = TargetVersion (details_at h b) \<and>
    ActionID (details_at h a) = ActionID (details_at h b) \<and>
    Metadata (details_at h a) = Metadata (details_at h b) \<and>
    DownloadPercent (Metadata (details_at h a)) \<noteq> NaN \<and>
    DownloadRate (Metadata (details_at h a)) \<noteq> NaN"
  then show "Equals h (Some a) (Some b)"
    by (auto simp: Equals_def Metadata_Equals_def equalTimePointers_refl float64_eq_def)
next
  assume "State (details_at h a) = State (details_at h b) \<and>
    TargetVersion (details_at h a) = TargetVersion (details_at h b) \<and>
    ActionID (details_at h a) = ActionID (details_at h b) \<and>
    ScheduledAt (Metadata (details_at h a)) = Some p \<and>
    ScheduledAt (Metadata (details_at h b)) = Some q \<and>
    FailedState (Metadata (details_at h a)) = FailedState (Metadata (details_at h b)) \<and>
    ErrorMsg (Metadata (details_at h a)) = ErrorMsg (Metadata (details_at h b)) \<and>
    DownloadPercent (Metadata (details_at h a)) = DownloadPercent (Metadata (details_at h b)) \<and>
    DownloadRate (Metadata (details_at h a)) = DownloadRate (Metadata (details_at h b)) \<and>
    DownloadPercent (Metadata (details_at h a)) \<noteq> NaN \<and>
    DownloadRate (Metadata (details_at h a)) \<noteq> NaN"
  then show "Equals h (Some a) (Some b) = (instant (time_at h p) = instant (time_at h q))"
    by (auto simp: Equals_def Metadata_Equals_def equalTimePointers_def Time_Equal_def
        float64_eq_def)
qed

text \<open>
  An instance of claim C9 in \<open>zoned_heap\<close>: the trackers at addresses 0 and 1 differ in
  their observers and point to timestamps of one instant in two time zones, and they
  are equal; so are the trackers at addresses 2 and 1, which have the same fields.
\<close>

theorem Equals_properties_witness:
  "State (details_at zoned_heap 0) = State (details_at zoned_heap 1) \<and>
   TargetVersion (details_at zoned_heap 0) = TargetVersion (details_at zoned_heap 1) \<and>
   ActionID (details_at zoned_heap 0) = ActionID (details_at zoned_heap 1) \<and>
   ScheduledAt (Metadata (details_at zoned_heap 0)) = Some 0 \<and>
   ScheduledAt (Metadata (details_at zoned_heap 1)) = Some 1 \<and>
   FailedState (Metadata (details_at zoned_heap 0)) =
     FailedState (Metadata (details_at zoned_heap 1)) \<and>
   ErrorMsg (Metadata (details_at zoned_heap 0)) = ErrorMsg (Metadata (details_at zoned_heap 1)) \<and>
   DownloadPercent (Metadata (details_at zoned_heap 0)) =
     DownloadPercent (Metadata (details_at zoned_heap 1)) \<and>
   DownloadRate (Metadata (details_at zoned_heap 0)) =
     DownloadRate (Metadata (details_at zoned_heap 1)) \<and>
   DownloadPercent (Metadata (details_at zoned_heap 0)) \<noteq> NaN \<and>
   DownloadRate (Metadata (details_at zoned_heap 0)) \<noteq> NaN \<and>
   time_at zoned_heap 0 \<noteq> time_at zoned_heap 1 \<and>
   observers (details_at zoned_heap 0) \<noteq> observers (details_at zoned_heap 1) \<and>
   Equals zoned_heap (Some 0) (Some 1) \<and>
   Metadata (details_at zoned_heap 2) = Metadata (details_at zoned_heap 1) \<and>
   Equals zoned_heap (Some 2) (Some 1)"
proof -
  have fields:
    "State (details_at zoned_heap 0) = State (details_at zoned_heap 1) \<and>
     TargetVersion (details_at zoned_heap 0) = TargetVersion (details_at zoned_heap 1) \<and>
     ActionID (details_at zoned_heap 0) = ActionID (details_at zoned_heap 1) \<and>
     ScheduledAt (Metadata (details_at zoned_heap 0)) = Some 0 \<and>
     ScheduledAt (Metadata (details_at zoned_heap 1)) = Some 1 \<and>
     FailedState (Metadata (details_at zoned_heap 0)) =
       FailedState (Metadata (details_at zoned_heap 1)) \<and>
     ErrorMsg (Metadata (details_at zoned_heap 0)) = ErrorMsg (Metadata (details_at zoned_heap 1)) \<and>
     DownloadPercent (Metadata (details_at zoned_heap 0)) =
       DownloadPercent (Metadata (details_at zoned_heap 1)) \<and>
     DownloadRate (Metadata (details_at zoned_heap 0)) =
       DownloadRate (Metadata (details_at zoned_heap 1)) \<and>
     DownloadPercent (Metadata (details_at zoned_heap 0)) \<noteq> NaN \<and>
     DownloadRate (Metadata (details_at zoned_heap 0)) \<noteq> NaN"
    by (simp add: zoned_heap_def scheduled_upgrade_def)
  have times: "time_at zoned_heap 0 \<noteq> time_at zoned_heap 1 \<and>
      instant (time_at zoned_heap 0) = instant (time_at zoned_heap 1)"
    by (simp add: zoned_heap_def)
  have obs: "observers (details_at zoned_heap 0) \<noteq> observers (details_at zoned_heap 1)"
    by (simp add: zoned_heap_def scheduled_upgrade_def)
  have same:
    "State (details_at zoned_heap 2) = State (details_at zoned_heap 1) \<and>
     TargetVersion (details_at zoned_heap 2) = TargetVersion (details_at zoned_heap 1) \<and>
     ActionID (details_at zoned_heap 2) = ActionID (details_at zoned_heap 1) \<and>
     Metadata (details_at zoned_heap 2) = Metadata (details_at zoned_heap 1) \<and>
     DownloadPercent (Metadata (details_at zoned_heap 2)) \<noteq> NaN \<and>
     DownloadRate (Metadata (details_at zoned_heap 2)) \<noteq> NaN"
    by (simp add: zoned_heap_def scheduled_upgrade_def)
  from Equals_properties [of zoned_heap None None 0 1 0 1] fields times
  have e1: "Equals zoned_heap (Some 0) (Some 1)" by blast
  from Equals_properties [of zoned_heap None None 2 1 0 1] same
  have e2: "Equals zoned_heap (Some 2) (Some 1)" by blast
  from fields times obs same e1 e2 show ?thesis by blast
qed

text \<open>
  Claim C9 as stated fails: in \<open>nan_heap\<close> the trackers at addresses 0 and 1 have the
  same state, target version, action id and metadata, and \<^verbatim>\<open>Equals\<close> is false, because
  their download percentage is NaN.
\<close>

theorem Equals_counterexample:
  "State (details_at nan_heap 0) = State (details_at nan_heap 1) \<and>
   TargetVersion (details_at nan_heap 0) = TargetVersion (details_at nan_heap 1) \<and>
   ActionID (details_at nan_heap 0) = ActionID (details_at nan_heap 1) \<and>
   Metadata (details_at nan_heap 0) = Metadata (details_at nan_heap 1) \<and>
   \<not> Equals nan_heap (Some 0) (Some 1)"
  by (simp add: nan_heap_def Equals_def Metadata_Equals_def float64_eq_def nan_progress_def
      fst_SetDownloadProgress)

section \<open>The download rate as JSON\<close>

lemma TrimSuffix_append: "TrimSuffix (s @ suffix) suffix = s"
  by (simp add: TrimSuffix_def HasSuffix_def)

lemma TrimSuffix_no_suffix: "\<not> HasSuffix s suffix \<Longrightarrow> TrimSuffix s suffix = s"
  by (simp add: TrimSuffix_def)

lemma HasSuffix_iff: "HasSuffix s suffix \<longleftrightarrow> (\<exists>t. s = t @ suffix)"
proof
  assume "HasSuffix s suffix"
  then have "s = take (length s - length suffix) s @ suffix"
    by (metis HasSuffix_def append_take_drop_id)
  then show "\<exists>t. s = t @ suffix" ..
next
  assume "\<exists>t. s = t @ suffix"
  then show "HasSuffix s suffix" by (auto simp: HasSuffix_def)
qed

text \<open>
  What \<^verbatim>\<open>MarshalJSON\<close> itself decides: an infinite rate of either sign is written as
  the fixed text, every other rate as the text go-units makes of it at precision 2,
  followed by \<^verbatim>\<open>ps\<close>. The text go-units makes is not determined here.
\<close>

lemma MarshalJSON_infinite:
  "dr = PosInf \<or> dr = NegInf \<Longrightarrow>
   MarshalJSON json_Marshal HumanSizeWithPrecision dr = json_Marshal ''+Inf bps''"
  by (auto simp: MarshalJSON_def IsInf_def)

lemma MarshalJSON_not_infinite:
  "dr \<noteq> PosInf \<Longrightarrow> dr \<noteq> NegInf \<Longrightarrow>
   MarshalJSON json_Marshal HumanSizeWithPrecision dr =
     json_Marshal (HumanSizeWithPrecision dr 2 @ ''ps'')"
  by (auto simp: MarshalJSON_def IsInf_def)

text \<open>
  With a JSON library that reads back the fixed text it wrote, positive infinity
  survives writing and reading.
\<close>

lemma UnmarshalJSON_MarshalJSON_PosInf:
  assumes "json_Marshal ''+Inf bps'' = (data, None)"
    and "json_Unmarshal data = (''+Inf bps'', None)"
  shows "MarshalJSON json_Marshal HumanSizeWithPrecision PosInf = (data, None) \<and>
         UnmarshalJSON json_Unmarshal FromHumanSize dr data = (None, PosInf)"
  using assms by (simp add: MarshalJSON_def IsInf_def UnmarshalJSON_def)

text \<open>
  What \<^verbatim>\<open>UnmarshalJSON\<close> itself decides. It returns either no error and a rate, or an
  error with the rate left as it was. The rate is positive infinity when the decoded
  text is \<^verbatim>\<open>+Inf bps\<close>; otherwise the text, without a trailing \<^verbatim>\<open>ps\<close> if it has one, goes
  to go-units, and the answer of go-units is passed on: its error, or its number as a
  float. Which texts go-units rejects is not determined here.
\<close>

lemma UnmarshalJSON_cases:
  "(json_Unmarshal data = (''+Inf bps'', None) \<longrightarrow>
      UnmarshalJSON json_Unmarshal FromHumanSize dr data = (None, PosInf)) \<and>
   (json_Unmarshal data = (s, None) \<and> s \<noteq> ''+Inf bps'' \<and>
    FromHumanSize (TrimSuffix s ''ps'') = (n, None) \<longrightarrow>
      UnmarshalJSON json_Unmarshal FromHumanSize dr data = (None, float64_of_int64 n)) \<and>
   (json_Unmarshal data = (s, None) \<and> s \<noteq> ''+Inf bps'' \<and>
    FromHumanSize (TrimSuffix s ''ps'') = (n, Some e) \<longrightarrow>
      UnmarshalJSON json_Unmarshal FromHumanSize dr data = (Some e, dr)) \<and>
   (json_Unmarshal data = (s, Some e) \<longrightarrow>
      UnmarshalJSON json_Unmarshal FromHumanSize dr data = (Some e, dr)) \<and>
   ((\<exists>rate. UnmarshalJSON json_Unmarshal FromHumanSize dr data = (None, rate)) \<or>
    (\<exists>err. UnmarshalJSON json_Unmarshal FromHumanSize dr data = (Some err, dr)))"
proof (intro conjI)
  show "(\<exists>rate. UnmarshalJSON json_Unmarshal FromHumanSize dr data = (None, rate)) \<or>
    (\<exists>err. UnmarshalJSON json_Unmarshal FromHumanSize dr data = (Some err, dr))"
    by (auto simp: UnmarshalJSON_def split: prod.splits option.splits)
qed (simp_all add: UnmarshalJSON_def)

end
